theory Spec2Isabelle
  imports Main "HOL-Library.Sublist" "HOL-Library.AList"
begin

section \<open>Python strings\<close>

text \<open>
  A Python \<^verbatim>\<open>str\<close> is a sequence of Unicode code points and \<^verbatim>\<open>len\<close> counts code
  points, so a string is modelled as a list of code points (natural numbers).
  \<open>ascii\<close> turns an ASCII literal into such a list.
\<close>

type_synonym ustr = "nat list"

definition ascii :: "string \<Rightarrow> ustr" where
  "ascii s = map of_char s"

text \<open>\<^verbatim>\<open>s.startswith(p)\<close> and \<^verbatim>\<open>s.endswith(p)\<close>.\<close>

definition startswith :: "ustr \<Rightarrow> ustr \<Rightarrow> bool" where
  "startswith s p = prefix p s"

definition endswith :: "ustr \<Rightarrow> ustr \<Rightarrow> bool" where
  "endswith s p = suffix p s"

text \<open>
  \<^verbatim>\<open>s.split(sep)\<close> for a non-empty separator: the occurrences of \<open>sep\<close> are found from
  left to right without overlap. (Python raises \<^verbatim>\<open>ValueError\<close> for an empty separator;
  every separator in the two programs is a non-empty literal.) The result is never the
  empty list, so \<^verbatim>\<open>[0]\<close> is \<open>hd\<close> and \<^verbatim>\<open>[-1]\<close> is \<open>last\<close>.
\<close>

fun str_split :: "ustr \<Rightarrow> ustr \<Rightarrow> ustr list" where
  "str_split [] sep = [[]]"
| "str_split (c # cs) sep =
     (if prefix sep (c # cs) then [] # str_split (drop (length sep - 1) cs) sep
      else (let r = str_split cs sep in (c # hd r) # tl r))"

text \<open>\<^verbatim>\<open>s.replace(old, new)\<close> for a non-empty \<open>old\<close>: every occurrence, left to right,
  without overlap.\<close>

fun str_replace :: "ustr \<Rightarrow> ustr \<Rightarrow> ustr \<Rightarrow> ustr" where
  "str_replace [] old new = []"
| "str_replace (c # cs) old new =
     (if prefix old (c # cs) then new @ str_replace (drop (length old - 1) cs) old new
      else c # str_replace cs old new)"

text \<open>
  The slice \<^verbatim>\<open>s[:m]\<close> for a Python integer \<open>m\<close>: the first \<open>m\<close> code points when
  \<open>m \<ge> 0\<close>, and all but the last \<open>-m\<close> code points when \<open>m < 0\<close>.
\<close>

definition slice_to :: "ustr \<Rightarrow> int \<Rightarrow> ustr" where
  "slice_to s m = (if 0 \<le> m then take (nat m) s else take (length s - nat (- m)) s)"





section \<open>Paths (posixpath)\<close>

text \<open>
  The shortcut files are macOS files, so \<^verbatim>\<open>os.path\<close> is \<^verbatim>\<open>posixpath\<close>; the separator
  is the slash (code point 47) and the extension separator the dot (code point 46).
\<close>

definition SLASH :: nat where "SLASH = 47"

definition DOT :: nat where "DOT = 46"

text \<open>\<^verbatim>\<open>basename(p)\<close>: \<^verbatim>\<open>p[i:]\<close> with \<^verbatim>\<open>i = p.rfind('/') + 1\<close>.\<close>

definition basename :: "ustr \<Rightarrow> ustr" where
  "basename p = rev (takeWhile (\<lambda>c. c \<noteq> SLASH) (rev p))"

text \<open>\<^verbatim>\<open>dirname(p)\<close>: \<^verbatim>\<open>head = p[:i]\<close>; trailing slashes are stripped from \<open>head\<close> unless
  it consists of slashes only.\<close>

definition dirname :: "ustr \<Rightarrow> ustr" where
  "dirname p =
     (let head = rev (dropWhile (\<lambda>c. c \<noteq> SLASH) (rev p))
      in if head \<noteq> [] \<and> head \<noteq> replicate (length head) SLASH
         then rev (dropWhile (\<lambda>c. c = SLASH) (rev head)) else head)"

text \<open>
  \<^verbatim>\<open>splitext(p)\<close>: the path is split at the last dot of its last component, provided a
  character other than a dot stands before that dot in the component; otherwise the
  extension is empty.
\<close>

definition splitext :: "ustr \<Rightarrow> ustr \<times> ustr" where
  "splitext p =
     (let name = basename p;
          ext = rev (takeWhile (\<lambda>c. c \<noteq> DOT) (rev name));
          stem = take (length name - length ext - 1) name
      in if DOT \<in> set name \<and> list_ex (\<lambda>c. c \<noteq> DOT) stem
         then (take (length p - length ext - 1) p, DOT # ext)
         else (p, []))"

text \<open>\<^verbatim>\<open>join(a, b)\<close> with two arguments.\<close>

definition join :: "ustr \<Rightarrow> ustr \<Rightarrow> ustr" where
  "join a b =
     (if startswith b [SLASH] then b
      else if a = [] \<or> endswith a [SLASH] then a @ b
      else a @ [SLASH] @ b)"


section \<open>The file system\<close>

text \<open>
  A path holds a shortcut with its URL, the remediation script that
  \<^verbatim>\<open>slim_webloc_names.py\<close> writes, a directory, or anything else. \<^verbatim>\<open>parse_webloc\<close>
  returns the URL of a shortcut and \<^verbatim>\<open>None\<close> for a missing path or any other content.
\<close>

datatype content = Webloc ustr | Script "ustr list" | Directory | Other

text \<open>
  The requests a program sends to the file system are recorded in the order they are
  made, whether they succeed or not. The record is an observation only: no decision of
  the programs reads it.
\<close>

datatype fs_op = Rename ustr ustr | Remove ustr | WriteFile ustr

record world =
  files :: "ustr \<Rightarrow> content option"
  ops :: "fs_op list"

text \<open>
  The operating system may reject any request (permissions, a name that is too long, a
  full disk, a destination that is a directory): \<open>os n\<close> tells whether it accepts the
  request number \<open>n\<close> of the run. A
  rejected request raises \<^verbatim>\<open>OSError\<close> and changes no file; so does renaming or removing
  a path that does not exist. The boolean result is \<open>True\<close> when no exception was raised.
\<close>

type_synonym os = "nat \<Rightarrow> bool"

text \<open>\<open>under d p\<close>: the path \<open>p\<close> lies below the directory \<open>d\<close>.\<close>

definition under :: "ustr \<Rightarrow> ustr \<Rightarrow> bool" where
  "under d p = prefix (d @ [SLASH]) p"

text \<open>
  A rename moves what is at \<open>src\<close> and, when \<open>src\<close> is a directory, everything below
  it, to \<open>dst\<close> and below \<open>dst\<close>; what was at or below \<open>dst\<close> before is replaced.
\<close>

definition mv :: "(ustr \<Rightarrow> content option) \<Rightarrow> ustr \<Rightarrow> ustr \<Rightarrow> (ustr \<Rightarrow> content option)" where
  "mv f src dst =
     (\<lambda>p. if p = dst \<or> under dst p then f (src @ drop (length dst) p)
          else if p = src \<or> under src p then None
          else f p)"


definition os_rename :: "os \<Rightarrow> ustr \<Rightarrow> ustr \<Rightarrow> world \<Rightarrow> world \<times> bool" where
  "os_rename os src dst w =
     (let w' = w\<lparr>ops := ops w @ [Rename src dst]\<rparr>
      in if os (length (ops w)) \<and> files w src \<noteq> None
         then (w'\<lparr>files := mv (files w) src dst\<rparr>, True)
         else (w', False))"


definition os_write :: "os \<Rightarrow> ustr \<Rightarrow> content \<Rightarrow> world \<Rightarrow> world \<times> bool" where
  "os_write os p c w =
     (let w' = w\<lparr>ops := ops w @ [WriteFile p]\<rparr>
      in if os (length (ops w))
         then (w'\<lparr>files := (files w)(p \<mapsto> c)\<rparr>, True)
         else (w', False))"

definition parse_webloc :: "world \<Rightarrow> ustr \<Rightarrow> ustr option" where
  "parse_webloc w filepath =
     (case files w filepath of Some (Webloc url) \<Rightarrow> Some url | _ \<Rightarrow> None)"

text \<open>
  \<^verbatim>\<open>find_webloc_files\<close>: \<open>walk\<close> is the list of full paths in the order \<^verbatim>\<open>os.walk\<close>
  yields them; a path is kept when \<^verbatim>\<open>parse_webloc\<close> returns a non-empty URL.
\<close>

definition find_webloc_files :: "world \<Rightarrow> ustr list \<Rightarrow> ustr list" where
  "find_webloc_files w walk =
     filter (\<lambda>full_path. case parse_webloc w full_path of
                           None \<Rightarrow> False | Some url \<Rightarrow> url \<noteq> []) walk"


section \<open>change\_webloc\_names.py\<close>

subsection \<open>Step 1: cleaning the URL (lines 170--173)\<close>

text \<open>Line 170--171: a YouTube watch URL is cut at the first \<^verbatim>\<open>&pp\<close>.\<close>

definition strip_youtube :: "ustr \<Rightarrow> ustr" where
  "strip_youtube url =
     (if startswith url (ascii ''https://www.youtube.com/watch?'')
      then hd (str_split url (ascii ''&pp'')) else url)"

text \<open>Line 172--173: a Bilibili video URL is cut at three markers, one after the other.\<close>

definition strip_bilibili :: "ustr \<Rightarrow> ustr" where
  "strip_bilibili url =
     (if startswith url (ascii ''https://www.bilibili.com/video/'')
      then hd (str_split (hd (str_split (hd (str_split url (ascii ''&vd_source='')))
                                       (ascii ''?vd_source='')))
                        (ascii ''?spm_id_from=''))
      else url)"

text \<open>The two \<^verbatim>\<open>if\<close> statements run in sequence on the same variable \<^verbatim>\<open>url\<close>.\<close>

definition canonicalize :: "ustr \<Rightarrow> ustr" where
  "canonicalize url = strip_bilibili (strip_youtube url)"

subsection \<open>The rule table and the emoji pattern (lines 9--97)\<close>

record rule =
  r_prefix :: ustr
  r_detect :: "ustr \<Rightarrow> bool"
  r_suffix_cleaner :: "ustr \<Rightarrow> ustr"


text \<open>\<^verbatim>\<open>EMOJI_PATTERN\<close> is a character class followed by \<^verbatim>\<open>+\<close>: \<open>is_emoji\<close> is membership
  in the class, range by range in the order of the source.\<close>

definition is_emoji :: "nat \<Rightarrow> bool" where
  "is_emoji c =
     ((0x1F600 \<le> c \<and> c \<le> 0x1F64F) \<or> (0x1F300 \<le> c \<and> c \<le> 0x1F5FF)
      \<or> (0x1F680 \<le> c \<and> c \<le> 0x1F6FF) \<or> (0x1F700 \<le> c \<and> c \<le> 0x1F77F)
      \<or> (0x1F780 \<le> c \<and> c \<le> 0x1F7FF) \<or> (0x1F800 \<le> c \<and> c \<le> 0x1F8FF)
      \<or> (0x1F900 \<le> c \<and> c \<le> 0x1F9FF) \<or> (0x1FA00 \<le> c \<and> c \<le> 0x1FA6F)
      \<or> (0x1FA70 \<le> c \<and> c \<le> 0x1FAFF) \<or> (0x2702 \<le> c \<and> c \<le> 0x27B0)
      \<or> (0x24C2 \<le> c \<and> c \<le> 0x257F) \<or> (0x2600 \<le> c \<and> c \<le> 0x26FF)
      \<or> (0x2700 \<le> c \<and> c \<le> 0x27BF) \<or> (0xFE00 \<le> c \<and> c \<le> 0xFE0F)
      \<or> (0x1F1E6 \<le> c \<and> c \<le> 0x1F1FF))"

text \<open>\<^verbatim>\<open>EMOJI_PATTERN.sub('', s)\<close> deletes every maximal run of class members, that is,
  every class member.\<close>

definition emoji_sub :: "ustr \<Rightarrow> ustr" where
  "emoji_sub s = filter (\<lambda>c. \<not> is_emoji c) s"

subsection \<open>Step 2 and step 3: the names (lines 182--227)\<close>


text \<open>
  Lines 191--193 and 219--221: \<^verbatim>\<open>max_length = 255 - len(".webloc") - len(dirname)\<close>, a
  Python integer that is negative for a long directory path, and the name is replaced by
  \<^verbatim>\<open>name[:max_length]\<close> when it is longer than \<open>max_length\<close>. The two lengths are
  parameters here; the program passes \<open>7\<close> and the length of the directory path.
\<close>

definition truncate_name :: "ustr \<Rightarrow> nat \<Rightarrow> nat \<Rightarrow> ustr" where
  "truncate_name name reserved dirlen =
     (let max_length = 255 - int reserved - int dirlen
      in if int (length name) > max_length then slice_to name max_length else name)"





text \<open>Lines 204--205: the basic renaming of step 3.\<close>

definition basic_rename :: "ustr \<Rightarrow> ustr" where
  "basic_rename name =
     emoji_sub
       (str_replace (str_replace (str_replace (str_replace name
          (ascii ''?'') [])
          (ascii ''!'') [])
          (ascii ''/'') [])
          [0x3000] (ascii '' ''))"




subsection \<open>The loop of \<^verbatim>\<open>main\<close> (lines 148--231)\<close>


text \<open>
  What the run prints about one file, kept as a trace with one entry for each iteration
  of the loop: the path (line 163), the cleaned URL read from the file when its turn
  comes (\<open>None\<close> when the file holds no URL then, and the iteration does nothing else),
  whether the record was deleted as a duplicate or went on to steps 2 and 3, and the
  file-system requests made for it.
\<close>

datatype verdict = First | Duplicate | Skipped

record entry =
  e_path :: ustr
  e_url :: "ustr option"
  e_verdict :: verdict
  e_ops :: "fs_op list"


record cstate =
  c_world :: world
  url_map :: "ustr \<Rightarrow> ustr option"
  total_count :: nat
  failed_instances :: "ustr list"
  trace :: "entry list"



subsection \<open>Reading the trace\<close>






subsection \<open>The filename sanitizer\<close>

text \<open>
  The sanitizer of the specification, \<open>sanitize candidate reservedSuffixLength
  directoryPathLength\<close>, is the basic renaming of lines 204--205 followed by the
  truncation of lines 219--221.
\<close>

definition sanitize :: "ustr \<Rightarrow> nat \<Rightarrow> nat \<Rightarrow> ustr" where
  "sanitize candidate reserved dirlen = truncate_name (basic_rename candidate) reserved dirlen"

text \<open>A code point that the basic renaming leaves alone.\<close>

definition clean_char :: "nat \<Rightarrow> bool" where
  "clean_char c = (c \<noteq> 63 \<and> c \<noteq> 33 \<and> c \<noteq> 47 \<and> c \<noteq> 0x3000 \<and> \<not> is_emoji c)"


section \<open>slim\_webloc\_names.py\<close>

subsection \<open>Batches and the simplification service (lines 26--130)\<close>

datatype py_error = ZeroDivisionError | OSError

text \<open>A \<^verbatim>\<open>batch_dict\<close> with its keys \<^verbatim>\<open>'id'\<close>, \<^verbatim>\<open>'filenames'\<close> and \<^verbatim>\<open>'attempts'\<close>.\<close>

record batch =
  b_id :: nat
  filenames :: "ustr list"
  attempts :: nat

text \<open>
  \<^verbatim>\<open>math.ceil(len(filepaths) / batch_size)\<close> for a batch size other than zero and a list
  of fewer than \<open>2 ^ 53\<close> paths. The quotient is a float, the exact quotient rounded to
  the nearest: it is \<open>0.0\<close> when the exact quotient is at most \<open>2 ^ -1075\<close>, and
  otherwise its ceiling is the ceiling of the exact quotient. The result is zero or
  negative for a negative batch size, and \<^verbatim>\<open>range\<close> is then empty.
\<close>

definition num_batches :: "nat \<Rightarrow> int \<Rightarrow> int" where
  "num_batches n batch_size =
     (if 0 < batch_size \<and> int n * 2 ^ 1075 \<le> batch_size then 0
      else - ((- int n) div batch_size))"

text \<open>Lines 39--41.\<close>

definition make_batches :: "ustr list \<Rightarrow> int \<Rightarrow> batch list" where
  "make_batches filepaths batch_size =
     map (\<lambda>i. \<lparr>b_id = i,
               filenames = take (nat batch_size) (drop (i * nat batch_size) filepaths),
               attempts = 0\<rparr>)
         [0 ..< nat (num_batches (length filepaths) batch_size)]"

text \<open>Lines 72--74: the name sent to the service and the prefix kept aside.\<close>

definition name_without_ext :: "ustr \<Rightarrow> ustr" where
  "name_without_ext filepath =
     last (str_split (fst (splitext (basename filepath))) (ascii '' - ''))"

definition prefix_of :: "ustr \<Rightarrow> ustr" where
  "prefix_of filepath =
     (let basename_split = str_split (fst (splitext (basename filepath))) (ascii '' - '')
      in if length basename_split > 1 then hd basename_split else [])"

text \<open>
  One request to the service either raises an exception (the request, the HTTP status
  or the parsing of the answer fails) or yields the parsed JSON list. An entry of the
  list is an object with a field \<^verbatim>\<open>'simplified'\<close> or a bare string. \<open>service n names\<close>
  is the outcome of request number \<open>n\<close> of the run, sent with the names \<open>names\<close>.
\<close>

datatype reply_entry = Obj ustr | Plain ustr

datatype response = Failure | Reply "reply_entry list"

type_synonym service = "nat \<Rightarrow> ustr list \<Rightarrow> response"

text \<open>Lines 108--109: \<^verbatim>\<open>simplified_name['simplified']\<close>, or the entry itself.\<close>

fun simplified :: "reply_entry \<Rightarrow> ustr" where
  "simplified (Obj s) = s"
| "simplified (Plain s) = s"

text \<open>
  Lines 107--113. \<^verbatim>\<open>simplified_names\<close> is a dictionary, which keeps insertion order: an
  association list updated in place. Entry \<open>i\<close> of the answer goes to entry \<open>i\<close> of
  \<^verbatim>\<open>file_prefix_list\<close>; an answer longer than the batch raises \<^verbatim>\<open>IndexError\<close> after the
  earlier entries were stored (result \<open>False\<close>).
\<close>

definition with_prefix :: "ustr \<Rightarrow> ustr \<Rightarrow> ustr" where
  "with_prefix pre simplified_name =
     (if pre \<noteq> [] then pre @ ascii '' - '' @ simplified_name else simplified_name)"

fun update_names ::
  "(ustr \<times> ustr) list \<Rightarrow> (ustr \<times> ustr) list \<Rightarrow> reply_entry list \<Rightarrow> (ustr \<times> ustr) list \<times> bool"
where
  "update_names names file_prefix_list [] = (names, True)"
| "update_names names [] (e # es) = (names, False)"
| "update_names names ((filepath, pre) # file_prefix_list) (e # es) =
     update_names (AList.update filepath (with_prefix pre (simplified e)) names)
       file_prefix_list es"

text \<open>
  The state of the loop: the work queue \<^verbatim>\<open>batched_filepaths\<close>, the two results, and the
  identifiers of the batches sent to the service so far, one for each iteration (an
  observation only).
\<close>

record sstate =
  batched_filepaths :: "batch list"
  simplified_names :: "(ustr \<times> ustr) list"
  failed_batches :: "ustr list"
  attempted :: "nat list"

text \<open>
  One iteration of the \<^verbatim>\<open>while\<close> loop (lines 46--128) on a non-empty queue.
  \<open>failed_batches\<close> is the list \<^verbatim>\<open>failed_instances\<close> of \<^verbatim>\<open>simplify_filenames\<close>. The
  bound the counter is compared with at line 125 is the parameter \<open>bound\<close>.
\<close>

definition loop_body :: "nat \<Rightarrow> service \<Rightarrow> sstate \<Rightarrow> sstate" where
  "loop_body bound service st =
     (case batched_filepaths st of
        [] \<Rightarrow> st
      | batch_dict # rest \<Rightarrow>
          let batch = filenames batch_dict;
              file_prefix_list = map (\<lambda>filepath. (filepath, prefix_of filepath)) batch;
              (names, ok) =
                (case service (length (attempted st)) (map name_without_ext batch) of
                   Failure \<Rightarrow> (simplified_names st, False)
                 | Reply simplified_batch \<Rightarrow>
                     update_names (simplified_names st) file_prefix_list simplified_batch);
              st1 = st\<lparr>batched_filepaths := rest, simplified_names := names,
                       attempted := attempted st @ [b_id batch_dict]\<rparr>
          in if ok then st1
             else
               let batch_dict' = batch_dict\<lparr>attempts := attempts batch_dict + 1\<rparr>
               in if attempts batch_dict' < bound
                  then st1\<lparr>batched_filepaths := rest @ [batch_dict']\<rparr>
                  else st1\<lparr>failed_batches := failed_batches st1 @ batch\<rparr>)"

text \<open>The \<^verbatim>\<open>while\<close> loop of line 45; \<open>None\<close> stands for a loop that never ends.\<close>

partial_function (option) process_batches :: "nat \<Rightarrow> service \<Rightarrow> sstate \<Rightarrow> sstate option" where
  "process_batches bound service st =
     (if batched_filepaths st = [] then Some st
      else process_batches bound service (loop_body bound service st))"

text \<open>
  The number of further iterations a queue can cause: a batch with \<open>a\<close> failed attempts
  is sent at most \<open>bound - a\<close> more times, and at least once.
\<close>

definition remaining :: "nat \<Rightarrow> sstate \<Rightarrow> nat" where
  "remaining bound st =
     sum_list (map (\<lambda>b. max 1 (bound - attempts b)) (batched_filepaths st))"

text \<open>The literal \<open>1\<close> of line 125, \<^verbatim>\<open>if batch_dict['attempts'] < 1\<close>.\<close>

definition attempt_bound :: nat where
  "attempt_bound = 1"

text \<open>Lines 38--44: the state in which the loop starts.\<close>

definition initial_state :: "ustr list \<Rightarrow> int \<Rightarrow> sstate" where
  "initial_state filepaths batch_size =
     \<lparr>batched_filepaths = make_batches filepaths batch_size,
      simplified_names = [], failed_batches = [], attempted = []\<rparr>"

text \<open>
  \<^verbatim>\<open>simplify_filenames\<close>. A batch size of zero raises \<^verbatim>\<open>ZeroDivisionError\<close> at line 40.
  The result is the final state of the loop, which holds the two returned values.
\<close>

definition simplify_filenames :: "service \<Rightarrow> ustr list \<Rightarrow> int \<Rightarrow> (py_error + sstate) option" where
  "simplify_filenames service filepaths batch_size =
     (if batch_size = 0 then Some (Inl ZeroDivisionError)
      else map_option Inr
             (process_batches attempt_bound service (initial_state filepaths batch_size)))"

subsection \<open>Renaming (lines 132--162)\<close>

text \<open>Lines 139--152: the new name and the new path of one file.\<close>

definition new_name :: "ustr \<Rightarrow> ustr \<Rightarrow> ustr" where
  "new_name original_path simplified_name =
     (let extension = snd (splitext (basename original_path));
          n = simplified_name @ extension
      in if length n > 255 then take 250 n @ extension else n)"

definition new_path :: "ustr \<Rightarrow> ustr \<Rightarrow> ustr" where
  "new_path original_path simplified_name =
     join (dirname original_path) (new_name original_path simplified_name)"

text \<open>
  \<^verbatim>\<open>rename_webloc_files\<close>: the loop over the items of the dictionary, with the list of
  failed paths as an accumulator. In a dry run the rename is only printed.
\<close>

fun rename_loop ::
  "os \<Rightarrow> bool \<Rightarrow> (ustr \<times> ustr) list \<Rightarrow> world \<Rightarrow> ustr list \<Rightarrow> world \<times> ustr list"
where
  "rename_loop os dry_run [] w failed = (w, failed)"
| "rename_loop os dry_run ((original_path, simplified_name) # items) w failed =
     (if simplified_name = [] then rename_loop os dry_run items w failed
      else if dry_run then rename_loop os dry_run items w failed
      else
        (case os_rename os original_path (new_path original_path simplified_name) w of
           (w', ok) \<Rightarrow>
             rename_loop os dry_run items w'
               (if ok then failed else failed @ [original_path])))"

definition rename_webloc_files ::
  "os \<Rightarrow> (ustr \<times> ustr) list \<Rightarrow> bool \<Rightarrow> world \<Rightarrow> world \<times> ustr list" where
  "rename_webloc_files os names dry_run w = rename_loop os dry_run names w []"

subsection \<open>\<^verbatim>\<open>main\<close> (lines 164--244)\<close>

definition FAILED_PY :: ustr where
  "FAILED_PY = ascii ''failed.py''"

text \<open>
  \<^verbatim>\<open>main\<close> after the API key is known. \<open>confirmation\<close> is the line typed at the prompt,
  read only when the run is not a dry run. The result is the final file system and the
  uncaught exception, if any; \<open>None\<close> stands for a run that never ends.
\<close>

definition slim_main ::
  "os \<Rightarrow> service \<Rightarrow> bool \<Rightarrow> int \<Rightarrow> ustr \<Rightarrow> ustr list \<Rightarrow> world \<Rightarrow> (world \<times> py_error option) option"
where
  "slim_main os service dry_run batch_size confirmation walk w =
     (let valid_webloc_files = find_webloc_files w walk
      in if valid_webloc_files = [] then Some (w, None)
         else
           (case simplify_filenames service valid_webloc_files batch_size of
              None \<Rightarrow> None
            | Some (Inl e) \<Rightarrow> Some (w, Some e)
            | Some (Inr st) \<Rightarrow>
                if simplified_names st = [] then Some (w, None)
                else if \<not> dry_run \<and> confirmation \<noteq> ascii ''y'' \<and> confirmation \<noteq> ascii ''Y''
                then Some (w, None)
                else
                  (case rename_webloc_files os (simplified_names st) dry_run w of
                     (w1, failed) \<Rightarrow>
                       let failed_instances = failed_batches st @ failed
                       in if failed_instances \<noteq> []
                          then (case os_write os FAILED_PY (Script failed_instances) w1 of
                                  (w2, ok) \<Rightarrow> Some (w2, if ok then None else Some OSError))
                          else Some (w1, None))))"


section \<open>Concrete inputs\<close>

text \<open>Inputs at which the programs are evaluated below: a service whose every request
  fails, and a service that answers every request with a single entry.\<close>

definition always_fails :: service where
  "always_fails n names = Failure"


text \<open>A service whose first request fails and whose later requests are answered with a
  single entry; an operating system that accepts every request; a file system that
  holds two shortcuts.\<close>

definition fails_first :: service where
  "fails_first n names = (if n = 0 then Failure else Reply [Plain (ascii ''x'')])"

definition accepts_all :: os where
  "accepts_all n = True"








definition two_shortcuts :: world where
  "two_shortcuts =
     \<lparr>files = [ascii ''a.webloc'' \<mapsto> Webloc (ascii ''https://a''),
               ascii ''b.webloc'' \<mapsto> Webloc (ascii ''https://b'')],
      ops = []\<rparr>"


section \<open>Properties of the string operations\<close>

lemma str_split_nonempty: "str_split s sep \<noteq> []"
  by (induction s sep rule: str_split.induct) (auto simp: Let_def)

lemma hd_split_prefix: "prefix (hd (str_split s sep)) s"
  by (induction s sep rule: str_split.induct) (auto simp: Let_def)

lemma hd_split_free:
  assumes "sep \<noteq> []"
  shows "\<not> sublist sep (hd (str_split s sep))"
  using assms
proof (induction s sep rule: str_split.induct)
  case (1 sep)
  then show ?case by simp
next
  case (2 c cs sep)
  show ?case
  proof (cases "prefix sep (c # cs)")
    case True
    with 2 show ?thesis by simp
  next
    case False
    have "\<not> prefix sep (c # hd (str_split cs sep))"
    proof
      assume "prefix sep (c # hd (str_split cs sep))"
      moreover have "prefix (c # hd (str_split cs sep)) (c # cs)"
        by (simp add: hd_split_prefix)
      ultimately have "prefix sep (c # cs)"
        by (rule prefix_order.trans)
      with False show False by contradiction
    qed
    with False 2 show ?thesis
      by (simp add: Let_def sublist_Cons_right)
  qed
qed

lemma split_free_id: "\<not> sublist sep s \<Longrightarrow> str_split s sep = [s]"
  by (induction s sep rule: str_split.induct) (auto simp: Let_def sublist_Cons_right)

lemma prefix_free: "prefix r s \<Longrightarrow> \<not> sublist sep s \<Longrightarrow> \<not> sublist sep r"
  by (metis prefix_imp_sublist sublist_order.order.trans)

lemma hd_split_free_id: "\<not> sublist sep s \<Longrightarrow> hd (str_split s sep) = s"
  by (simp add: split_free_id)

lemma replace_del: "str_replace s [c] [] = filter (\<lambda>x. x \<noteq> c) s"
  by (induction s "[c]" "[]::nat list" rule: str_replace.induct) auto

lemma replace_sub: "str_replace s [c] [d] = map (\<lambda>x. if x = c then d else x) s"
  by (induction s "[c]" "[d]" rule: str_replace.induct) auto

lemma ascii_single: "ascii [c] = [of_char c]"
  by (simp add: ascii_def)



section \<open>URL canonicalization\<close>

lemma strip_bilibili_prefix: "prefix (strip_bilibili v) v"
proof -
  have "prefix (hd (str_split (hd (str_split (hd (str_split v a)) b)) c)) v" for a b c
    by (meson hd_split_prefix prefix_order.trans)
  then show ?thesis by (simp add: strip_bilibili_def)
qed

lemma strip_bilibili_idem: "strip_bilibili (strip_bilibili v) = strip_bilibili v"
proof (cases "startswith v (ascii ''https://www.bilibili.com/video/'')")
  case False
  then show ?thesis by (simp add: strip_bilibili_def)
next
  case True
  define a where "a = ascii ''&vd_source=''"
  define b where "b = ascii ''?vd_source=''"
  define c where "c = ascii ''?spm_id_from=''"
  define r1 where "r1 = hd (str_split v a)"
  define r2 where "r2 = hd (str_split r1 b)"
  define r3 where "r3 = hd (str_split r2 c)"
  have ne: "a \<noteq> []" "b \<noteq> []" "c \<noteq> []"
    by (simp_all add: a_def b_def c_def ascii_def)
  have r: "strip_bilibili v = r3"
    using True by (simp add: strip_bilibili_def r3_def r2_def r1_def a_def b_def c_def)
  have p32: "prefix r3 r2" and p21: "prefix r2 r1"
    by (simp_all add: r3_def r2_def hd_split_prefix)
  have fa1: "\<not> sublist a r1" and fb2: "\<not> sublist b r2" and fc3: "\<not> sublist c r3"
    using ne by (simp_all add: r1_def r2_def r3_def hd_split_free)
  have fa3: "\<not> sublist a r3"
    using p32 p21 fa1 by (meson prefix_free)
  have fb3: "\<not> sublist b r3"
    using p32 fb2 by (meson prefix_free)
  have "hd (str_split (hd (str_split (hd (str_split r3 a)) b)) c) = r3"
    using fa3 fb3 fc3 by (simp add: hd_split_free_id)
  then have "strip_bilibili r3 = r3"
    by (simp add: strip_bilibili_def a_def b_def c_def)
  with r show ?thesis by simp
qed

lemma strip_youtube_fix:
  "strip_youtube (strip_bilibili (strip_youtube u)) = strip_bilibili (strip_youtube u)"
proof -
  define y where "y = ascii ''https://www.youtube.com/watch?''"
  define a where "a = ascii ''&pp''"
  define r where "r = strip_bilibili (strip_youtube u)"
  have pr: "prefix r (strip_youtube u)"
    by (simp add: r_def strip_bilibili_prefix)
  have "strip_youtube r = r"
  proof (cases "startswith u y")
    case True
    then have "strip_youtube u = hd (str_split u a)"
      by (simp add: strip_youtube_def y_def a_def)
    moreover have "\<not> sublist a (hd (str_split u a))"
      by (rule hd_split_free) (simp add: a_def ascii_def)
    ultimately have "\<not> sublist a r"
      using pr by (metis prefix_free)
    then have "hd (str_split r a) = r"
      by (rule hd_split_free_id)
    then show ?thesis
      by (simp add: strip_youtube_def a_def)
  next
    case False
    then have "strip_youtube u = u"
      by (simp add: strip_youtube_def y_def)
    with pr have "prefix r u" by simp
    have "\<not> startswith r y"
    proof
      assume "startswith r y"
      then have "prefix y r" by (simp add: startswith_def)
      with \<open>prefix r u\<close> have "prefix y u" by (meson prefix_order.trans)
      with False show False by (simp add: startswith_def)
    qed
    then show ?thesis
      by (simp add: strip_youtube_def y_def)
  qed
  then show ?thesis by (simp add: r_def)
qed

text \<open>
  Claim C7. Cleaning a URL twice gives the same result as cleaning it once: for every
  URL string \<open>u\<close>, \<open>canonicalize (canonicalize u) = canonicalize u\<close>. The function cuts
  YouTube watch URLs at \<^verbatim>\<open>&pp\<close> and Bilibili video URLs at the three tracking markers, and
  returns every other URL unchanged.
\<close>

theorem canonicalize_idempotent: "canonicalize (canonicalize u) = canonicalize u"
proof -
  have "canonicalize (canonicalize u)
        = strip_bilibili (strip_youtube (strip_bilibili (strip_youtube u)))"
    by (simp add: canonicalize_def)
  also have "\<dots> = strip_bilibili (strip_bilibili (strip_youtube u))"
    by (simp only: strip_youtube_fix)
  also have "\<dots> = strip_bilibili (strip_youtube u)"
    by (rule strip_bilibili_idem)
  finally show ?thesis by (simp add: canonicalize_def)
qed


section \<open>The filename sanitizer\<close>

lemma basic_rename_filter:
  "basic_rename x =
     filter (\<lambda>c. \<not> is_emoji c)
       (map (\<lambda>c. if c = 0x3000 then 32 else c)
          (filter (\<lambda>c. c \<noteq> 47) (filter (\<lambda>c. c \<noteq> 33) (filter (\<lambda>c. c \<noteq> 63) x))))"
  unfolding basic_rename_def emoji_sub_def ascii_single replace_del replace_sub
  by (simp cong: if_cong)

lemma not_emoji_space: "\<not> is_emoji 32"
  by (simp add: is_emoji_def)

lemma basic_rename_clean: "c \<in> set (basic_rename x) \<Longrightarrow> clean_char c"
  using not_emoji_space
  by (auto simp: basic_rename_filter clean_char_def split: if_splits)

lemma basic_rename_id: "(\<And>c. c \<in> set y \<Longrightarrow> clean_char c) \<Longrightarrow> basic_rename y = y"
proof (induction y)
  case Nil
  then show ?case by (simp add: basic_rename_filter)
next
  case (Cons a y)
  have "clean_char a" using Cons.prems by simp
  moreover have "basic_rename y = y" using Cons by simp
  ultimately show ?case
    by (simp add: basic_rename_filter clean_char_def)
qed

lemma truncate_name_take:
  "reserved + dirlen \<le> 255 \<Longrightarrow>
   truncate_name name reserved dirlen = take (255 - reserved - dirlen) name"
  by (auto simp: truncate_name_def slice_to_def Let_def nat_diff_distrib)

text \<open>
  Claim C8, as the specification states it, for every pair of lengths: it fails when
  the two lengths exceed the limit of 255. With a directory path of 250 code points
  \<^verbatim>\<open>max_length\<close> is \<open>-2\<close>, the slice \<^verbatim>\<open>name[:-2]\<close> drops the last two code points, and
  a second pass drops two more: \<^verbatim>\<open>abcdef\<close> becomes \<^verbatim>\<open>abcd\<close>, then \<^verbatim>\<open>ab\<close>.
\<close>

theorem sanitize_not_idempotent:
  "sanitize (sanitize (ascii ''abcdef'') 7 250) 7 250 \<noteq> sanitize (ascii ''abcdef'') 7 250"
  by (simp add: sanitize_def truncate_name_def basic_rename_def emoji_sub_def is_emoji_def
      ascii_def slice_to_def)

text \<open>
  Claim C8, amended: when the reserved suffix length and the directory path length
  together do not exceed 255 (so that the length budget is not negative), sanitizing a
  sanitized name changes nothing.
\<close>

theorem sanitize_idempotent:
  assumes "reserved + dirlen \<le> 255"
  shows "sanitize (sanitize x reserved dirlen) reserved dirlen = sanitize x reserved dirlen"
proof -
  define m where "m = 255 - reserved - dirlen"
  have s: "sanitize y reserved dirlen = take m (basic_rename y)" for y
    using assms by (simp add: sanitize_def truncate_name_take m_def)
  have "basic_rename (take m (basic_rename x)) = take m (basic_rename x)"
    by (rule basic_rename_id) (meson basic_rename_clean in_set_takeD)
  then show ?thesis by (simp add: s)
qed

theorem sanitize_idempotent_witness:
  "(7::nat) + 246 \<le> 255 \<and>
   sanitize (sanitize (ascii ''a?b!c'') 7 246) 7 246 = sanitize (ascii ''a?b!c'') 7 246 \<and>
   sanitize (ascii ''a?b!c'') 7 246 = ascii ''ab''"
  using sanitize_idempotent [of 7 246 "ascii ''a?b!c''"]
  by (simp add: sanitize_def truncate_name_def basic_rename_def emoji_sub_def is_emoji_def
      ascii_def slice_to_def)


section \<open>Destinations of the renames\<close>








text \<open>
  Claim C4 at a failing input. The file \<^verbatim>\<open>d/x.webloc\<close> receives a simplified name of
  250 letters \<^verbatim>\<open>a\<close>. With the extension the name has 257 code points, more than 255, so
  the hard truncation of lines 148--151 runs: it keeps the first 250 code points and
  adds the 7 of the extension again. The name it commits still has 257 code points.
\<close>

theorem hard_truncation_exceeds_limit:
  "new_name (ascii ''d/x.webloc'') (replicate 250 97) = replicate 250 97 @ ascii ''.webloc''
   \<and> length (new_name (ascii ''d/x.webloc'') (replicate 250 97)) = 257"
  by (simp add: new_name_def splitext_def basename_def ascii_def SLASH_def DOT_def)


section \<open>The batch loop\<close>

lemma loop_body_remaining:
  assumes "batched_filepaths st \<noteq> []"
  shows "remaining bound (loop_body bound service st) < remaining bound st"
proof -
  obtain b rest where q: "batched_filepaths st = b # rest"
    using assms by (cases "batched_filepaths st") auto
  then show ?thesis
    by (auto simp: loop_body_def remaining_def Let_def split: prod.splits response.splits)
qed

lemma loop_body_attempted:
  assumes "batched_filepaths st \<noteq> []"
  shows "attempted (loop_body bound service st) = attempted st @ [b_id (hd (batched_filepaths st))]"
proof -
  obtain b rest where q: "batched_filepaths st = b # rest"
    using assms by (cases "batched_filepaths st") auto
  then show ?thesis
    by (auto simp: loop_body_def Let_def split: prod.splits response.splits)
qed

text \<open>Each iteration lowers \<open>remaining\<close>, so the loop returns from every state, after at
  most \<open>remaining\<close> iterations.\<close>

lemma process_batches_returns:
  "\<exists>st'. process_batches bound service st = Some st' \<and> batched_filepaths st' = []
      \<and> length (attempted st') \<le> length (attempted st) + remaining bound st"
proof (induction "remaining bound st" arbitrary: st rule: less_induct)
  case less
  show ?case
  proof (cases "batched_filepaths st = []")
    case True
    then show ?thesis by (simp add: process_batches.simps)
  next
    case False
    let ?st1 = "loop_body bound service st"
    have d: "remaining bound ?st1 < remaining bound st"
      using False by (rule loop_body_remaining)
    have a: "length (attempted ?st1) = length (attempted st) + 1"
      using False by (simp add: loop_body_attempted)
    from less [OF d] obtain st' where r: "process_batches bound service ?st1 = Some st'"
      "batched_filepaths st' = []"
      "length (attempted st') \<le> length (attempted ?st1) + remaining bound ?st1"
      by blast
    have "process_batches bound service st = Some st'"
      using False r(1) by (subst process_batches.simps) simp
    moreover have "length (attempted st') \<le> length (attempted st) + remaining bound st"
      using r(3) a d by linarith
    ultimately show ?thesis using r(2) by blast
  qed
qed

lemma remaining_initial:
  "remaining bound (initial_state filepaths batch_size)
   = length (make_batches filepaths batch_size) * max 1 bound"
  by (simp add: remaining_def initial_state_def make_batches_def comp_def sum_list_triv)

text \<open>
  Claim C9. The loop ends for every list of paths, every batch size and every behaviour
  of the service. For any bound in the comparison of line 125 the loop returns with an
  empty queue after at most (number of batches) times (bound, at least one) iterations;
  each iteration sends one request, recorded in \<open>attempted\<close>. With the bound of the
  source, \<^verbatim>\<open>simplify_filenames\<close> always returns: it raises \<^verbatim>\<open>ZeroDivisionError\<close> for a
  batch size of zero and otherwise returns after at most (number of batches) times
  \<open>attempt_bound\<close> iterations.
\<close>

theorem simplify_filenames_terminates:
  "(\<exists>st'. process_batches bound service (initial_state filepaths batch_size) = Some st'
         \<and> batched_filepaths st' = []
         \<and> length (attempted st') \<le> length (make_batches filepaths batch_size) * max 1 bound)
   \<and> (\<exists>r. simplify_filenames service filepaths batch_size = Some r
         \<and> (case r of
              Inl e \<Rightarrow> batch_size = 0
            | Inr st' \<Rightarrow> batched_filepaths st' = []
                \<and> length (attempted st')
                    \<le> length (make_batches filepaths batch_size) * attempt_bound))"
proof -
  have a0: "attempted (initial_state filepaths batch_size) = []"
    by (simp add: initial_state_def)
  have g: "\<exists>st'. process_batches b service (initial_state filepaths batch_size) = Some st'
         \<and> batched_filepaths st' = []
         \<and> length (attempted st') \<le> length (make_batches filepaths batch_size) * max 1 b" for b
    using process_batches_returns [of b service "initial_state filepaths batch_size"] a0
    by (simp add: remaining_initial)
  from g [of attempt_bound] obtain st' where
    "process_batches attempt_bound service (initial_state filepaths batch_size) = Some st'"
    "batched_filepaths st' = []"
    "length (attempted st') \<le> length (make_batches filepaths batch_size) * max 1 attempt_bound"
    by blast
  then have "\<exists>r. simplify_filenames service filepaths batch_size = Some r
         \<and> (case r of
              Inl e \<Rightarrow> batch_size = 0
            | Inr st' \<Rightarrow> batched_filepaths st' = []
                \<and> length (attempted st')
                    \<le> length (make_batches filepaths batch_size) * attempt_bound)"
    by (simp add: simplify_filenames_def attempt_bound_def)
  with g [of bound] show ?thesis by blast
qed

text \<open>
  Claim C1 at a failing input. Two files in batches of one, and a service whose every
  request fails. The claim asks for two attempts for each batch, the batch going to the
  back of the queue in between, which would be the requests \<open>0, 1, 0, 1\<close>. The program
  sends each batch once, \<open>0, 1\<close>: the counter is incremented before it is compared
  with \<open>1\<close>, so the branch that puts the batch back in the queue is never taken. Both
  paths are in the list of failures once.
\<close>

theorem always_failing_batch_attempted_once:
  "simplify_filenames always_fails [ascii ''a.webloc'', ascii ''b.webloc''] 1 =
   Some (Inr \<lparr>batched_filepaths = [], simplified_names = [],
              failed_batches = [ascii ''a.webloc'', ascii ''b.webloc''], attempted = [0, 1]\<rparr>)"
  by (simp add: simplify_filenames_def attempt_bound_def initial_state_def make_batches_def
      num_batches_def process_batches.simps loop_body_def always_fails_def Let_def upt_rec)


section \<open>Matching the answer of the service to the batch\<close>









section \<open>Dry runs\<close>

lemma rename_loop_dry: "rename_loop os True items w failed = (w, failed)"
  by (induction items arbitrary: failed) auto

text \<open>
  Claim C5, as the specification states it: it fails for a dry run with a failed batch.
  Two shortcuts in batches of one; the first request fails, the second is answered.
  The dry run renames nothing, but the list of failures is not empty, so \<^verbatim>\<open>main\<close>
  writes the script \<^verbatim>\<open>failed.py\<close> (lines 217--232), a file that did not exist before.
\<close>

theorem dry_run_writes_failed_py:
  "slim_main accepts_all fails_first True 1 [] [ascii ''a.webloc'', ascii ''b.webloc'']
       two_shortcuts \<noteq> None
   \<and> ops (fst (the (slim_main accepts_all fails_first True 1 []
             [ascii ''a.webloc'', ascii ''b.webloc''] two_shortcuts)))
       = [WriteFile FAILED_PY]
   \<and> files (fst (the (slim_main accepts_all fails_first True 1 []
             [ascii ''a.webloc'', ascii ''b.webloc''] two_shortcuts))) FAILED_PY
       = Some (Script [ascii ''a.webloc''])
   \<and> files two_shortcuts FAILED_PY = None"
proof -
  let ?a = "ascii ''a.webloc''" and ?b = "ascii ''b.webloc''"
  have v: "find_webloc_files two_shortcuts [?a, ?b] = [?a, ?b]"
    by (simp add: find_webloc_files_def parse_webloc_def two_shortcuts_def ascii_def)
  have s: "simplify_filenames fails_first [?a, ?b] 1 =
     Some (Inr \<lparr>batched_filepaths = [], simplified_names = [(?b, ascii ''x'')],
              failed_batches = [?a], attempted = [0, 1]\<rparr>)"
    by (simp add: simplify_filenames_def attempt_bound_def initial_state_def make_batches_def
      num_batches_def process_batches.simps loop_body_def fails_first_def Let_def upt_rec
      prefix_of_def name_without_ext_def splitext_def basename_def ascii_def SLASH_def DOT_def
      with_prefix_def)
  have m: "slim_main accepts_all fails_first True 1 [] [?a, ?b] two_shortcuts =
      Some (two_shortcuts\<lparr>ops := ops two_shortcuts @ [WriteFile FAILED_PY],
              files := (files two_shortcuts)(FAILED_PY \<mapsto> Script [?a])\<rparr>, None)"
    by (simp add: slim_main_def v s rename_webloc_files_def rename_loop_dry os_write_def
        accepts_all_def Let_def)
  have f: "files two_shortcuts FAILED_PY = None" "ops two_shortcuts = []"
    by (simp_all add: two_shortcuts_def FAILED_PY_def ascii_def)
  show ?thesis unfolding m using f by simp
qed

text \<open>
  Claim C5, amended. A dry run always ends, and sends no request to the file system
  except, at most, the one that writes \<^verbatim>\<open>failed.py\<close>: no file is renamed or removed,
  and every path other than \<^verbatim>\<open>failed.py\<close> holds what it held before.
\<close>

theorem dry_run_only_writes_report:
  "\<exists>w' e. slim_main os service True batch_size confirmation walk w = Some (w', e)
     \<and> (ops w' = ops w \<or> ops w' = ops w @ [WriteFile FAILED_PY])
     \<and> (\<forall>p. p \<noteq> FAILED_PY \<longrightarrow> files w' p = files w p)"
proof -
  have "\<exists>r. simplify_filenames service (find_webloc_files w walk) batch_size = Some r"
  proof (cases "batch_size = 0")
    case True
    then show ?thesis by (simp add: simplify_filenames_def)
  next
    case False
    obtain st' where "process_batches attempt_bound service
        (initial_state (find_webloc_files w walk) batch_size) = Some st'"
      using process_batches_returns by blast
    with False show ?thesis by (simp add: simplify_filenames_def)
  qed
  then obtain r where
    r: "simplify_filenames service (find_webloc_files w walk) batch_size = Some r" ..
  show ?thesis
  proof (cases r)
    case (Inl e)
    then show ?thesis using r by (simp add: slim_main_def Let_def)
  next
    case (Inr st)
    then show ?thesis using r
      by (auto simp: slim_main_def Let_def rename_webloc_files_def rename_loop_dry os_write_def)
  qed
qed

theorem dry_run_only_writes_report_witness:
  "ascii ''a.webloc'' \<noteq> FAILED_PY
   \<and> files (fst (the (slim_main accepts_all fails_first True 1 []
             [ascii ''a.webloc'', ascii ''b.webloc''] two_shortcuts))) (ascii ''a.webloc'')
       = Some (Webloc (ascii ''https://a''))"
proof -
  have n: "ascii ''a.webloc'' \<noteq> FAILED_PY"
    by (simp add: FAILED_PY_def ascii_def)
  from dry_run_only_writes_report [of accepts_all fails_first 1 "[]"
      "[ascii ''a.webloc'', ascii ''b.webloc'']" two_shortcuts]
  obtain w' e where
    "slim_main accepts_all fails_first True 1 [] [ascii ''a.webloc'', ascii ''b.webloc'']
       two_shortcuts = Some (w', e)"
    "\<forall>p. p \<noteq> FAILED_PY \<longrightarrow> files w' p = files two_shortcuts p"
    by blast
  then have "files (fst (the (slim_main accepts_all fails_first True 1 []
             [ascii ''a.webloc'', ascii ''b.webloc''] two_shortcuts))) (ascii ''a.webloc'')
       = files two_shortcuts (ascii ''a.webloc'')"
    using n by simp
  then show ?thesis using n by (simp add: two_shortcuts_def ascii_def)
qed


section \<open>Duplicates\<close>
















subsection \<open>Single iterations, evaluated\<close>




subsection \<open>Two runs\<close>














section \<open>The two renames of a record\<close>












end
